theory Spec2Isabelle
  imports Complex_Main "HOL-Library.Word" "HOL-Library.Sublist"
begin

section \<open>Data model\<close>

text \<open>
  The exceptions that the script can raise.  The specification names them by role; the
  Python exception that the interpreter or a library raises at that point is given
  beside each one.
\<close>

datatype error =
    NameError           \<comment> \<open>a name is looked up that no scope binds\<close>
  | AttributeError      \<comment> \<open>the spec's DecodeError: \<open>cv2.imread\<close> gave \<open>None\<close>, which has no \<open>shape\<close>;
                            also reading \<open>self.image_urls\<close> before any scrape\<close>
  | EmptyInputError     \<comment> \<open>the \<open>ValueError\<close> of \<open>np.random.choice\<close> on an empty sequence\<close>
  | NoRegionsError      \<comment> \<open>the \<open>AssertionError\<close> of \<open>crop_contours\<close>\<close>
  | DownloadError       \<comment> \<open>\<open>urllib\<close> could not retrieve the URL\<close>
  | FileNotFoundError   \<comment> \<open>\<open>open(path, "w")\<close> in a directory that does not exist\<close>
  | IsADirectoryError   \<comment> \<open>\<open>open(path, "w")\<close> on a path that is a directory\<close>

type_synonym pixel = "8 word"
type_synonym gray_img = "pixel list list"               \<comment> \<open>rows of \<open>uint8\<close> values\<close>
type_synonym bgr = "pixel \<times> pixel \<times> pixel"
type_synonym color_img = "bgr list list"                \<comment> \<open>rows of (B, G, R) triples\<close>
type_synonym rect = "int \<times> int \<times> int \<times> int"             \<comment> \<open>\<open>[x, y, w, h]\<close>\<close>
type_synonym fpath = "string list"                      \<comment> \<open>a path as its components\<close>

text \<open>
  The calls into OpenCV, urllib and pytesseract whose results the script only passes on.
  They are parameters of the model; \<open>'c\<close> is the type of a contour.
\<close>

record 'c libs =
  cvtColor :: "color_img \<Rightarrow> gray_img"                         \<comment> \<open>\<open>cv2.COLOR_BGR2GRAY\<close>\<close>
  erode :: "gray_img \<Rightarrow> nat \<times> nat \<Rightarrow> nat \<Rightarrow> gray_img"           \<comment> \<open>image, kernel shape, iterations\<close>
  dilate :: "gray_img \<Rightarrow> nat \<times> nat \<Rightarrow> nat \<Rightarrow> gray_img"
  findContours :: "gray_img \<Rightarrow> 'c list"                        \<comment> \<open>\<open>RETR_EXTERNAL\<close>, \<open>CHAIN_APPROX_NONE\<close>\<close>
  boundingRect :: "'c \<Rightarrow> rect"
  rectangle :: "color_img \<Rightarrow> int \<times> int \<Rightarrow> int \<times> int \<Rightarrow> bgr \<Rightarrow> nat \<Rightarrow> color_img"
  imdecode :: "pixel list \<Rightarrow> color_img option"                \<comment> \<open>what \<open>cv2.imread\<close> makes of a file's bytes\<close>
  urlretrieve :: "string \<Rightarrow> pixel list option"                 \<comment> \<open>the bytes behind a URL\<close>
  image_to_string :: "gray_img \<Rightarrow> string \<Rightarrow> string"             \<comment> \<open>image, config\<close>

datatype content = Raw "pixel list" | Encoded color_img | Text string

record world =
  files :: "fpath \<rightharpoonup> content"
  dirs :: "fpath set"
  heap :: "color_img list"     \<comment> \<open>the colour arrays alive, an array's address is its index\<close>

record 'c image_obj =
  url :: string
  uid :: string
  path :: fpath
  image_path :: fpath
  image_ref :: nat             \<comment> \<open>\<open>self.image\<close>: the address of the decoded array\<close>
  height :: nat
  width :: nat
  thresh :: gray_img
  contours :: "'c list"
  cropped_contours :: "gray_img list"
  contour_texts :: "string list"

section \<open>Text-box detection\<close>

text \<open>
  \<open>cv2.threshold(src, thresh, maxval, cv2.THRESH_BINARY_INV)\<close>, as OpenCV documents it:
  a pixel becomes 0 when it is greater than \<open>thresh\<close> and \<open>maxval\<close> otherwise.
\<close>

definition threshold_binary_inv :: "gray_img \<Rightarrow> pixel \<Rightarrow> pixel \<Rightarrow> gray_img" where
  "threshold_binary_inv src t maxval = map (map (\<lambda>p. if t < p then 0 else maxval)) src"

text \<open>
  The loop \<open>for contour in contours\<close> of \<open>get_text_boxes\<close>, which removes from
  the list it iterates over.  Python's list iterator keeps an index \<open>i\<close>: it stops when
  \<open>i\<close> reaches the current length, and otherwise yields element \<open>i\<close> and increments.
  \<open>list.remove\<close> deletes the first element equal to its argument.  The comparison
  \<open>w < self.width * .15\<close> is taken over the rationals.
\<close>

function narrow_down :: "'c libs \<Rightarrow> nat \<Rightarrow> nat \<Rightarrow> 'c list \<Rightarrow> 'c list" where
  "narrow_down L W i cs =
     (if i < length cs then
        (case boundingRect L (cs ! i) of (x, y, w, h) \<Rightarrow>
           if h > w then narrow_down L W (Suc i) (remove1 (cs ! i) cs)
           else if (of_int w :: rat) < of_nat W * (15 / 100)
             then narrow_down L W (Suc i) (remove1 (cs ! i) cs)
           else narrow_down L W (Suc i) cs)
      else cs)"
  by pat_completeness auto
termination
  by (relation "measure (\<lambda>(L, W, i, cs). length cs - i)") (auto simp: length_remove1)

definition get_text_boxes :: "'c libs \<Rightarrow> 'c image_obj \<Rightarrow> world \<Rightarrow> 'c image_obj \<times> 'c list" where
  "get_text_boxes L self w =
     (let gray = cvtColor L (heap w ! image_ref self);
          thresh0 = threshold_binary_inv gray 250 255;
          thresh1 = map (map (\<lambda>v. 255 - v)) thresh0;
          self1 = self\<lparr>thresh := thresh1\<rparr>;
          erosion = erode L thresh1 (1, 5) 1;
          dilated = dilate L erosion (7, 7) 4;
          cs = findContours L dilated
      in (self1, narrow_down L (width self1) 0 cs))"


section \<open>Cropping\<close>

text \<open>
  A Python slice \<open>xs[a:b]\<close> on integers: a negative bound counts from the end, and both
  bounds are clamped to the length.  numpy slices each axis of an array this way.
\<close>

definition py_slice :: "int \<Rightarrow> int \<Rightarrow> 'a list \<Rightarrow> 'a list" where
  "py_slice a b xs =
     (let n = int (length xs);
          lo = (if a < 0 then max (a + n) 0 else min a n);
          hi = (if b < 0 then max (b + n) 0 else min b n)
      in take (nat (hi - lo)) (drop (nat lo) xs))"

definition crop_contours :: "'c libs \<Rightarrow> 'c image_obj \<Rightarrow> error + gray_img list" where
  "crop_contours L self =
     (if contours self = [] then Inl NoRegionsError
      else Inr (map (\<lambda>contour. case boundingRect L contour of (x, y, w, h) \<Rightarrow>
                  map (py_slice x (x + w)) (py_slice y (y + h) (thresh self)))
                (contours self)))"

section \<open>The file system\<close>

definition os_path_exists :: "world \<Rightarrow> fpath \<Rightarrow> bool" where
  "os_path_exists w p = (p \<in> dirs w \<or> files w p \<noteq> None)"

text \<open>\<open>os.makedirs\<close> creates the directory and every missing ancestor. The script calls
  it only on a path that does not exist.\<close>

definition os_makedirs :: "world \<Rightarrow> fpath \<Rightarrow> world" where
  "os_makedirs w p = w\<lparr>dirs := dirs w \<union> set (tl (prefixes p))\<rparr>"

text \<open>Writing through \<open>open(path, "w")\<close> or \<open>urlretrieve\<close>: the parent directory
  must exist and the path must not be a directory.\<close>

definition write_file :: "world \<Rightarrow> fpath \<Rightarrow> content \<Rightarrow> error + world" where
  "write_file w p c =
     (if butlast p \<notin> dirs w then Inl FileNotFoundError
      else if p \<in> dirs w then Inl IsADirectoryError
      else Inr (w\<lparr>files := (files w)(p \<mapsto> c)\<rparr>))"

text \<open>\<open>cv2.imwrite\<close> raises nothing when it cannot open the file: it returns False,
  which \<open>draw_contours\<close> ignores.\<close>

definition cv2_imwrite :: "world \<Rightarrow> fpath \<Rightarrow> color_img \<Rightarrow> world" where
  "cv2_imwrite w p im =
     (if butlast p \<in> dirs w \<and> p \<notin> dirs w then w\<lparr>files := (files w)(p \<mapsto> Encoded im)\<rparr> else w)"

text \<open>\<open>cv2.imread\<close> returns \<open>None\<close> for a file that is missing or does not decode.\<close>

definition cv2_imread :: "'c libs \<Rightarrow> world \<Rightarrow> fpath \<Rightarrow> color_img option" where
  "cv2_imread L w p =
     (case files w p of
        Some (Raw bs) \<Rightarrow> imdecode L bs
      | Some (Encoded im) \<Rightarrow> Some im
      | _ \<Rightarrow> None)"

definition save_image_from_url ::
  "'c libs \<Rightarrow> 'c image_obj \<Rightarrow> world \<Rightarrow> world \<times> (error + 'c image_obj \<times> color_img option)" where
  "save_image_from_url L self w =
     (let w1 = (if \<not> os_path_exists w [''images''] then os_makedirs w [''images''] else w);
          w2 = fold (\<lambda>directory v.
                  let p = [''images'', uid self, directory]
                  in if \<not> os_path_exists v p then os_makedirs v p else v)
                [''input_images'', ''output_images'', ''output_texts''] w1;
          self1 = self\<lparr>image_path := path self @ [''input_images'', ''input.png'']\<rparr>
      in case urlretrieve L (url self) of
           None \<Rightarrow> (w2, Inl DownloadError)
         | Some bs \<Rightarrow>
             (case write_file w2 (image_path self1) (Raw bs) of
                Inl e \<Rightarrow> (w2, Inl e)
              | Inr w3 \<Rightarrow> (w3, Inr (self1, cv2_imread L w3 (image_path self1)))))"

section \<open>Annotation and OCR\<close>

text \<open>
  \<open>self.image.copy()\<close> allocates a new array; \<open>cv2.rectangle\<close> then overwrites the
  array at that address once per contour.
\<close>

definition draw_contours :: "'c libs \<Rightarrow> 'c image_obj \<Rightarrow> bool \<Rightarrow> world \<Rightarrow> world" where
  "draw_contours L self save w =
     (let copy = length (heap w);
          w1 = w\<lparr>heap := heap w @ [heap w ! image_ref self]\<rparr>;
          w2 = fold (\<lambda>contour v. case boundingRect L contour of (x, y, wd, h) \<Rightarrow>
                  v\<lparr>heap := (heap v)[copy := rectangle L (heap v ! copy) (x, y) (x + wd, y + h) (0, 255, 0) 2]\<rparr>)
                (contours self) w1
      in if save then cv2_imwrite w2 (path self @ [''output_images'', ''contours.png'']) (heap w2 ! copy)
         else w2)"

fun str_join :: "string \<Rightarrow> string list \<Rightarrow> string" where
  "str_join sep [] = []"
| "str_join sep [t] = t"
| "str_join sep (t # u # ts) = t @ sep @ str_join sep (u # ts)"

definition get_contour_texts ::
  "'c libs \<Rightarrow> 'c image_obj \<Rightarrow> string \<Rightarrow> bool \<Rightarrow> world \<Rightarrow> world \<times> (error + string list)" where
  "get_contour_texts L self config save w =
     (let texts = map (\<lambda>img. image_to_string L (dilate L img (2, 2) 1) config)
                    (cropped_contours self)
      in if save then
           (case write_file w (path self @ [''output_texts'', ''text.txt''])
                   (Text (str_join [CHR 0x0A] texts)) of
              Inl e \<Rightarrow> (w, Inl e)
            | Inr w1 \<Rightarrow> (w1, Inr texts))
         else (w, Inr texts))"

section \<open>Constructing an Image\<close>

text \<open>
  \<open>Image.__init__\<close> assigns the attributes one after the other.  \<open>Image_new\<close> is the
  object after \<open>url\<close>, \<open>uid\<close> and \<open>path\<close> are set (\<open>uid\<close> is the string of the fresh
  UUID), with every later attribute still empty; \<open>Image_load\<close> is the assignment of
  \<open>image\<close>, \<open>height\<close> and \<open>width\<close>; \<open>Image_analyse\<close> is the assignment of
  \<open>contours\<close>, \<open>cropped_contours\<close> and \<open>contour_texts\<close>.
\<close>

definition Image_new :: "string \<Rightarrow> string \<Rightarrow> 'c image_obj" where
  "Image_new u url0 =
     \<lparr>url = url0, uid = u, path = [''images'', u], image_path = [], image_ref = 0,
      height = 0, width = 0, thresh = [], contours = [], cropped_contours = [],
      contour_texts = []\<rparr>"

definition Image_load ::
  "'c libs \<Rightarrow> string \<Rightarrow> string \<Rightarrow> world \<Rightarrow> world \<times> (error + 'c image_obj)" where
  "Image_load L u url0 w =
     (case save_image_from_url L (Image_new u url0) w of
        (w1, Inl e) \<Rightarrow> (w1, Inl e)
      | (w1, Inr (self1, None)) \<Rightarrow> (w1, Inl AttributeError)
      | (w1, Inr (self1, Some img)) \<Rightarrow>
          (w1\<lparr>heap := heap w1 @ [img]\<rparr>,
           Inr (self1\<lparr>image_ref := length (heap w1),
                      height := length img,
                      width := (case img of [] \<Rightarrow> 0 | row # _ \<Rightarrow> length row)\<rparr>)))"

definition Image_analyse ::
  "'c libs \<Rightarrow> 'c image_obj \<Rightarrow> world \<Rightarrow> world \<times> (error + 'c image_obj)" where
  "Image_analyse L self w =
     (case get_text_boxes L self w of (self1, cs) \<Rightarrow>
        (let self2 = self1\<lparr>contours := cs\<rparr>
         in case crop_contours L self2 of
              Inl e \<Rightarrow> (w, Inl e)
            | Inr crops \<Rightarrow>
                (let self3 = self2\<lparr>cropped_contours := crops\<rparr>
                 in case get_contour_texts L self3 ''-l eng --oem 1 --psm 3'' True w of
                      (w1, Inl e) \<Rightarrow> (w1, Inl e)
                    | (w1, Inr texts) \<Rightarrow> (w1, Inr (self3\<lparr>contour_texts := texts\<rparr>)))))"

definition Image_init ::
  "'c libs \<Rightarrow> string \<Rightarrow> string \<Rightarrow> world \<Rightarrow> world \<times> (error + 'c image_obj)" where
  "Image_init L u url0 w =
     (case Image_load L u url0 w of
        (w1, Inl e) \<Rightarrow> (w1, Inl e)
      | (w1, Inr self) \<Rightarrow> Image_analyse L self w1)"


section \<open>The Reddit class\<close>

text \<open>The keyword arguments that \<open>praw.Reddit\<close> is constructed with.\<close>

record praw_handle =
  praw_client_id :: string
  praw_client_secret :: string
  praw_password :: string
  praw_username :: string
  praw_user_agent :: string

record reddit_creds =
  username :: string
  password :: string
  client_id :: string
  client_secret :: string
  user_agent :: string

record reddit_obj = reddit_creds +
  reddit :: praw_handle
  image_urls :: "string list option"      \<comment> \<open>\<open>None\<close> until a scrape has set the attribute\<close>

text \<open>\<open>Reddit._initialize\<close>, which reads the credentials that \<open>__init__\<close> has set.\<close>

definition initialize :: "'a reddit_creds_scheme \<Rightarrow> praw_handle" where
  "initialize self =
     \<lparr>praw_client_id = username self,
      praw_client_secret = client_secret self,
      praw_password = password self,
      praw_username = username self,
      praw_user_agent = user_agent self\<rparr>"

text \<open>\<open>Reddit.__init__\<close>; the optional argument is \<open>None\<close> when the caller leaves
  \<open>user_agent\<close> to its default.\<close>

definition Reddit_init :: "string \<Rightarrow> string \<Rightarrow> string \<Rightarrow> string \<Rightarrow> string option \<Rightarrow> reddit_obj" where
  "Reddit_init username0 password0 client_id0 client_secret0 user_agent0 =
     (let creds = \<lparr>username = username0, password = password0, client_id = client_id0,
                   client_secret = client_secret0,
                   user_agent = (case user_agent0 of None \<Rightarrow> ''required'' | Some ua \<Rightarrow> ua)\<rparr>
      in \<lparr>username = username creds, password = password creds, client_id = client_id creds,
          client_secret = client_secret creds, user_agent = user_agent creds,
          reddit = initialize creds, image_urls = None\<rparr>)"

text \<open>A post as the scrape sees it: its \<open>post_hint\<close>, when it has the attribute, and the
  URL at \<open>preview['images'][0]['source']['url']\<close>.\<close>

record post =
  post_hint :: "string option"
  source_url :: string

definition scrape_sub_pictures :: "post list \<Rightarrow> reddit_obj \<Rightarrow> reddit_obj" where
  "scrape_sub_pictures posts self =
     self\<lparr>image_urls := Some (map source_url (filter (\<lambda>p. post_hint p = Some ''image'') posts))\<rparr>"

text \<open>
  \<open>np.random.choice\<close> draws one element; the model gives the set of results it can have.
  On an empty sequence it raises.
\<close>

definition get_random_url :: "reddit_obj \<Rightarrow> (error + string) set" where
  "get_random_url self =
     (case image_urls self of
        None \<Rightarrow> {Inl AttributeError}
      | Some urls \<Rightarrow> if urls = [] then {Inl EmptyInputError} else Inr ` set urls)"

text \<open>The body of \<open>ocr_meme\<close>, for a URL that the caller passes.\<close>

definition ocr_meme ::
  "'c libs \<Rightarrow> reddit_obj \<Rightarrow> string \<Rightarrow> string \<Rightarrow> world \<Rightarrow> world \<times> (error + unit)" where
  "ocr_meme L self u url0 w =
     (case (Image_init L u url0 w :: world \<times> (error + 'c image_obj)) of
        (w1, Inl e) \<Rightarrow> (w1, Inl e)
      | (w1, Inr img) \<Rightarrow> (draw_contours L img True w1, Inr ()))"

subsection \<open>Executing the class statement\<close>

text \<open>
  A \<open>def\<close> statement evaluates the default values of its parameters when it is executed,
  in the scope of the statement: for a method, the namespace of the class body so far and
  then the globals of the module.  Only name lookup is modelled.
\<close>

datatype expr = Name string | Attribute expr string | Constant

fun eval_expr :: "string list \<Rightarrow> expr \<Rightarrow> error + unit" where
  "eval_expr scope (Name n) = (if n \<in> set scope then Inr () else Inl NameError)"
| "eval_expr scope (Attribute e a) = eval_expr scope e"
| "eval_expr scope Constant = Inr ()"

fun eval_defaults :: "string list \<Rightarrow> (string \<times> expr option) list \<Rightarrow> error + unit" where
  "eval_defaults scope [] = Inr ()"
| "eval_defaults scope ((p, None) # ps) = eval_defaults scope ps"
| "eval_defaults scope ((p, Some e) # ps) =
     (case eval_expr scope e of Inl err \<Rightarrow> Inl err | Inr _ \<Rightarrow> eval_defaults scope ps)"

fun exec_class_body ::
  "string list \<Rightarrow> string list \<Rightarrow> (string \<times> (string \<times> expr option) list) list \<Rightarrow> error + string list" where
  "exec_class_body globals ns [] = Inr ns"
| "exec_class_body globals ns ((f, params) # ds) =
     (case eval_defaults (ns @ globals) params of
        Inl err \<Rightarrow> Inl err
      | Inr _ \<Rightarrow> exec_class_body globals (ns @ [f]) ds)"

definition module_globals :: "string list" where
  "module_globals = [''os'', ''cv2'', ''math'', ''uuid'', ''praw'', ''urllib'', ''pytesseract'', ''np'']"

definition Reddit_class_body :: "(string \<times> (string \<times> expr option) list) list" where
  "Reddit_class_body =
     [(''__init__'', [(''self'', None), (''username'', None), (''password'', None),
                     (''client_id'', None), (''client_secret'', None),
                     (''user_agent'', Some Constant)]),
      (''_initialize'', [(''self'', None)]),
      (''scrape_sub_pictures'', [(''self'', None), (''subreddit'', None),
                                (''sub_category'', Some Constant), (''n'', Some Constant)]),
      (''get_random_url'', [(''self'', None)]),
      (''ocr_meme'', [(''self'', None),
                     (''url'', Some (Attribute (Name ''self'') ''get_random_url''))])]"

section \<open>Reading the text file back\<close>

text \<open>The newline-separated blocks of a text: Python's \<open>text.split('\n')\<close>.\<close>

fun split_nl :: "string \<Rightarrow> string list" where
  "split_nl [] = [[]]"
| "split_nl (c # cs) =
     (if c = CHR 0x0A then [] # split_nl cs
      else (case split_nl cs of [] \<Rightarrow> [[c]] | b # bs \<Rightarrow> (c # b) # bs))"

section \<open>A small instance of the libraries\<close>

text \<open>
  Contours are given by their bounding rectangles; the detector finds the contours \<open>cs\<close>
  and the OCR engine reads the text \<open>t\<close>.  A download is one byte per pixel of a
  one-row image, and drawing a rectangle paints the whole image.
\<close>

definition stub_libs :: "rect list \<Rightarrow> string \<Rightarrow> rect libs" where
  "stub_libs cs t =
     \<lparr>cvtColor = map (map (\<lambda>(b, g, r). g)),
      erode = (\<lambda>im k n. im),
      dilate = (\<lambda>im k n. im),
      findContours = (\<lambda>im. cs),
      boundingRect = (\<lambda>c. c),
      rectangle = (\<lambda>im p q col th. map (map (\<lambda>_. col)) im),
      imdecode = (\<lambda>bs. if bs = [] then None else Some [map (\<lambda>b. (b, b, b)) bs]),
      urlretrieve = (\<lambda>u. if u = [] then None else Some [255, 250, 251, 0]),
      image_to_string = (\<lambda>im config. t)\<rparr>"

definition empty_world :: world where
  "empty_world = \<lparr>files = Map.empty, dirs = {}, heap = []\<rparr>"


section \<open>Facts about the file system\<close>

lemma os_makedirs_simps [simp]:
  "files (os_makedirs w p) = files w" "heap (os_makedirs w p) = heap w"
  "dirs (os_makedirs w p) = dirs w \<union> set (tl (prefixes p))"
  by (simp_all add: os_makedirs_def)

lemma fold_mk_files [simp]:
  "files (fold (\<lambda>d v. if \<not> os_path_exists v [''images'', u, d] then os_makedirs v [''images'', u, d] else v) ds w) = files w"
  by (induction ds arbitrary: w) simp_all

lemma fold_mk_heap [simp]:
  "heap (fold (\<lambda>d v. if \<not> os_path_exists v [''images'', u, d] then os_makedirs v [''images'', u, d] else v) ds w) = heap w"
  by (induction ds arbitrary: w) simp_all

lemma fold_mk_dirs_mono:
  "dirs w \<subseteq> dirs (fold (\<lambda>d v. if \<not> os_path_exists v [''images'', u, d] then os_makedirs v [''images'', u, d] else v) ds w)"
proof (induction ds arbitrary: w)
  case Nil
  show ?case by simp
next
  case (Cons d ds)
  show ?case using Cons.IH [of "os_makedirs w [''images'', u, d]"] Cons.IH [of w] by auto
qed

lemma fold_mk_dirs_upper:
  "dirs (fold (\<lambda>d v. if \<not> os_path_exists v [''images'', u, d] then os_makedirs v [''images'', u, d] else v) ds w)
     \<subseteq> dirs w \<union> {q. length q \<le> 3}"
proof (induction ds arbitrary: w)
  case Nil
  show ?case by simp
next
  case (Cons d ds)
  show ?case using Cons.IH [of "os_makedirs w [''images'', u, d]"] Cons.IH [of w] by auto
qed

lemma fold_mk_dirs_made:
  "d \<in> set ds \<Longrightarrow> files w [''images'', u, d] = None \<Longrightarrow>
   [''images'', u, d] \<in> dirs (fold (\<lambda>d v. if \<not> os_path_exists v [''images'', u, d] then os_makedirs v [''images'', u, d] else v) ds w)"
proof (induction ds arbitrary: w)
  case Nil
  then show ?case by simp
next
  case (Cons e ds)
  let ?w1 = "if \<not> os_path_exists w [''images'', u, e] then os_makedirs w [''images'', u, e] else w"
  have f: "files ?w1 = files w" by simp
  show ?case
  proof (cases "d = e")
    case True
    have "[''images'', u, e] \<in> dirs ?w1"
      using Cons.prems True by (auto simp: os_path_exists_def)
    then show ?thesis using fold_mk_dirs_mono [of ?w1 u ds] True by auto
  next
    case False
    then have "d \<in> set ds" using Cons.prems by simp
    from Cons.IH [OF this, of ?w1] Cons.prems f show ?thesis by simp
  qed
qed

lemma save_image_shape:
  assumes "save_image_from_url L self w = (w', r)"
  obtains w2 where "files w2 = files w" and "heap w2 = heap w" and "dirs w \<subseteq> dirs w2"
    and "dirs w2 \<subseteq> dirs w \<union> {q. length q \<le> 3}"
    and "files w [''images'', uid self, ''input_images''] = None
           \<longrightarrow> [''images'', uid self, ''input_images''] \<in> dirs w2"
    and "files w [''images'', uid self, ''output_images''] = None
           \<longrightarrow> [''images'', uid self, ''output_images''] \<in> dirs w2"
    and "files w [''images'', uid self, ''output_texts''] = None
           \<longrightarrow> [''images'', uid self, ''output_texts''] \<in> dirs w2"
    and "case urlretrieve L (url self) of
           None \<Rightarrow> w' = w2 \<and> r = Inl DownloadError
         | Some bs \<Rightarrow>
            (case write_file w2 (path self @ [''input_images'', ''input.png'']) (Raw bs) of
               Inl e \<Rightarrow> w' = w2 \<and> r = Inl e
             | Inr w3 \<Rightarrow> w' = w3 \<and>
                 r = Inr (self\<lparr>image_path := path self @ [''input_images'', ''input.png'']\<rparr>,
                          cv2_imread L w3 (path self @ [''input_images'', ''input.png''])))"
proof -
  define ds where "ds = [''input_images'', ''output_images'', ''output_texts'']"
  define w1 where "w1 = (if \<not> os_path_exists w [''images''] then os_makedirs w [''images''] else w)"
  define w2 where "w2 = fold (\<lambda>d v. if \<not> os_path_exists v [''images'', uid self, d]
                 then os_makedirs v [''images'', uid self, d] else v) ds w1"
  have f1: "files w1 = files w" and h1: "heap w1 = heap w" by (simp_all add: w1_def)
  have d1: "dirs w \<subseteq> dirs w1" and d1': "dirs w1 \<subseteq> dirs w \<union> {q. length q \<le> 3}"
    by (auto simp: w1_def)
  have f2: "files w2 = files w" using f1 by (simp add: w2_def)
  have h2: "heap w2 = heap w" using h1 by (simp add: w2_def)
  have d2: "dirs w \<subseteq> dirs w2"
    using d1 fold_mk_dirs_mono [of w1 "uid self" ds] unfolding w2_def by blast
  have d2': "dirs w2 \<subseteq> dirs w \<union> {q. length q \<le> 3}"
    using d1' fold_mk_dirs_upper [of "uid self" ds w1] unfolding w2_def by blast
  have m: "files w [''images'', uid self, d] = None \<longrightarrow> [''images'', uid self, d] \<in> dirs w2"
    if "d \<in> set ds" for d
    using fold_mk_dirs_made [OF that, of w1 "uid self"] f1 unfolding w2_def by auto
  have r: "(case urlretrieve L (url self) of
                 None \<Rightarrow> w' = w2 \<and> r = Inl DownloadError
               | Some bs \<Rightarrow>
                  (case write_file w2 (path self @ [''input_images'', ''input.png'']) (Raw bs) of
                     Inl e \<Rightarrow> w' = w2 \<and> r = Inl e
                   | Inr w3 \<Rightarrow> w' = w3 \<and>
                       r = Inr (self\<lparr>image_path := path self @ [''input_images'', ''input.png'']\<rparr>,
                                cv2_imread L w3 (path self @ [''input_images'', ''input.png'']))))"
    using assms unfolding save_image_from_url_def Let_def ds_def [symmetric] w1_def [symmetric] w2_def [symmetric]
    by (auto split: option.splits sum.splits)
  have "''input_images'' \<in> set ds" "''output_images'' \<in> set ds" "''output_texts'' \<in> set ds"
    by (simp_all add: ds_def)
  then show ?thesis
    using f2 h2 d2 d2' m r by (intro that [of w2]) simp_all
qed

lemma write_file_Inr:
  assumes "write_file w p c = Inr w'"
  shows "w' = w\<lparr>files := (files w)(p \<mapsto> c)\<rparr>" and "butlast p \<in> dirs w" and "p \<notin> dirs w"
  using assms by (auto simp: write_file_def split: if_splits)

lemma Image_load_Inr:
  assumes "Image_load L u url0 w = (w1, Inr self1)"
  obtains bs img where "urlretrieve L url0 = Some bs" and "imdecode L bs = Some img"
    and "files w1 = (files w)([''images'', u, ''input_images'', ''input.png''] \<mapsto> Raw bs)"
    and "heap w1 = heap w @ [img]"
    and "self1 = (Image_new u url0)
                \<lparr>image_path := [''images'', u, ''input_images'', ''input.png''],
                 image_ref := length (heap w), height := length img,
                 width := (case img of [] \<Rightarrow> 0 | row # _ \<Rightarrow> length row)\<rparr>"
    and "dirs w \<subseteq> dirs w1" and "dirs w1 \<subseteq> dirs w \<union> {q. length q \<le> 3}"
    and "files w [''images'', u, ''output_images''] = None
                  \<longrightarrow> [''images'', u, ''output_images''] \<in> dirs w1"
    and "files w [''images'', u, ''output_texts''] = None
                  \<longrightarrow> [''images'', u, ''output_texts''] \<in> dirs w1"
proof -
  obtain w0 r where s: "save_image_from_url L (Image_new u url0 :: 'a image_obj) w = (w0, r)"
    by (cases "save_image_from_url L (Image_new u url0 :: 'a image_obj) w") 
  from assms s obtain self0 img where r: "r = Inr (self0, Some img)"
    and w1: "w1 = w0\<lparr>heap := heap w0 @ [img]\<rparr>"
    and self1: "self1 = self0\<lparr>image_ref := length (heap w0), height := length img,
                      width := (case img of [] \<Rightarrow> 0 | row # _ \<Rightarrow> length row)\<rparr>"
    by (auto simp: Image_load_def split: sum.splits option.splits prod.splits)
  have nm: "uid (Image_new u url0 :: 'a image_obj) = u" "url (Image_new u url0 :: 'a image_obj) = url0"
     "path (Image_new u url0 :: 'a image_obj) = [''images'', u]"
    by (simp_all add: Image_new_def)
  from s obtain w2 where
    a: "files w2 = files w" "heap w2 = heap w" "dirs w \<subseteq> dirs w2"
       "dirs w2 \<subseteq> dirs w \<union> {q. length q \<le> 3}"
    and o1: "files w [''images'', uid (Image_new u url0 :: 'a image_obj), ''output_images''] = None
           \<longrightarrow> [''images'', uid (Image_new u url0 :: 'a image_obj), ''output_images''] \<in> dirs w2"
    and o2: "files w [''images'', uid (Image_new u url0 :: 'a image_obj), ''output_texts''] = None
           \<longrightarrow> [''images'', uid (Image_new u url0 :: 'a image_obj), ''output_texts''] \<in> dirs w2"
    and c0: "case urlretrieve L (url (Image_new u url0 :: 'a image_obj)) of
           None \<Rightarrow> w0 = w2 \<and> r = Inl DownloadError
         | Some bs \<Rightarrow>
            (case write_file w2 (path (Image_new u url0 :: 'a image_obj) @ [''input_images'', ''input.png'']) (Raw bs) of
               Inl e \<Rightarrow> w0 = w2 \<and> r = Inl e
             | Inr w3 \<Rightarrow> w0 = w3 \<and>
                 r = Inr ((Image_new u url0)\<lparr>image_path := path (Image_new u url0 :: 'a image_obj) @ [''input_images'', ''input.png'']\<rparr>,
                          cv2_imread L w3 (path (Image_new u url0 :: 'a image_obj) @ [''input_images'', ''input.png''])))"
    by (rule save_image_shape)
  have c: "(case urlretrieve L url0 of
                 None \<Rightarrow> w0 = w2 \<and> r = Inl DownloadError
               | Some bs \<Rightarrow>
                  (case write_file w2 [''images'', u, ''input_images'', ''input.png''] (Raw bs) of
                     Inl e \<Rightarrow> w0 = w2 \<and> r = Inl e
                   | Inr w3 \<Rightarrow> w0 = w3 \<and>
                       r = Inr ((Image_new u url0)\<lparr>image_path := [''images'', u, ''input_images'', ''input.png'']\<rparr>,
                                cv2_imread L w3 [''images'', u, ''input_images'', ''input.png''])))"
    using c0 by (simp add: nm cong: option.case_cong sum.case_cong)
  note o = o1 [unfolded nm] o2 [unfolded nm]
  from c r obtain bs where bs: "urlretrieve L url0 = Some bs"
    and wf: "write_file w2 [''images'', u, ''input_images'', ''input.png''] (Raw bs) = Inr w0"
    and self0: "self0 = (Image_new u url0)\<lparr>image_path := [''images'', u, ''input_images'', ''input.png'']\<rparr>"
    and rd: "cv2_imread L w0 [''images'', u, ''input_images'', ''input.png''] = Some img"
    by (auto split: option.splits sum.splits)
  note w0 = write_file_Inr(1) [OF wf]
  have dec: "imdecode L bs = Some img" using rd by (simp add: w0 cv2_imread_def)
  show ?thesis
    using bs dec a o by (intro that [of bs img]) (simp_all add: w1 self1 self0 w0)
qed

section \<open>Facts about the analysis of an image\<close>

lemma get_text_boxes_fst:
  "fst (get_text_boxes L self w) =
     self\<lparr>thresh := map (map (\<lambda>p. if 250 < p then 255 else 0)) (cvtColor L (heap w ! image_ref self))\<rparr>"
  by (simp add: get_text_boxes_def threshold_binary_inv_def Let_def)


lemma Image_analyse_Inr:
  assumes "Image_analyse L self w = (w', Inr self')"
  shows "self' = (fst (get_text_boxes L self w))
           \<lparr>contours := snd (get_text_boxes L self w),
            cropped_contours := map (\<lambda>contour. case boundingRect L contour of (x, y, wd, h) \<Rightarrow>
                  map (py_slice x (x + wd)) (py_slice y (y + h) (thresh (fst (get_text_boxes L self w)))))
                (snd (get_text_boxes L self w)),
            contour_texts := map (\<lambda>img. image_to_string L (dilate L img (2, 2) 1) ''-l eng --oem 1 --psm 3'')
               (map (\<lambda>contour. case boundingRect L contour of (x, y, wd, h) \<Rightarrow>
                  map (py_slice x (x + wd)) (py_slice y (y + h) (thresh (fst (get_text_boxes L self w)))))
                (snd (get_text_boxes L self w)))\<rparr>"
    and "snd (get_text_boxes L self w) \<noteq> []"
    and "w' = w\<lparr>files := (files w)(path self @ [''output_texts'', ''text.txt'']
                  \<mapsto> Text (str_join [CHR 0x0A] (contour_texts self')))\<rparr>"
    and "path self @ [''output_texts''] \<in> dirs w"
    and "path self @ [''output_texts'', ''text.txt''] \<notin> dirs w"
proof -
  obtain self1 cs where g: "get_text_boxes L self w = (self1, cs)"
    by (cases "get_text_boxes L self w")
  have p: "path self1 = path self" using get_text_boxes_fst [of L self w] g by simp
  from assms have ne: "cs \<noteq> []"
    by (auto simp: Image_analyse_def g crop_contours_def Let_def split: if_splits)
  define crops where "crops = map (\<lambda>contour. case boundingRect L contour of (x, y, wd, h) \<Rightarrow>
                  map (py_slice x (x + wd)) (py_slice y (y + h) (thresh self1))) cs"
  define texts where "texts = map (\<lambda>img. image_to_string L (dilate L img (2, 2) 1) ''-l eng --oem 1 --psm 3'') crops"
  have cc: "crop_contours L (self1\<lparr>contours := cs\<rparr>) = Inr crops"
    using ne by (simp add: crop_contours_def crops_def)
  have gt: "get_contour_texts L (self1\<lparr>contours := cs, cropped_contours := crops\<rparr>) ''-l eng --oem 1 --psm 3'' True w
      = (case write_file w (path self @ [''output_texts'', ''text.txt'']) (Text (str_join [CHR 0x0A] texts)) of
              Inl e \<Rightarrow> (w, Inl e)
            | Inr w1 \<Rightarrow> (w1, Inr texts))"
    unfolding get_contour_texts_def texts_def Let_def by (simp add: p cong: sum.case_cong)
  from assms obtain wf: "write_file w (path self @ [''output_texts'', ''text.txt'']) (Text (str_join [CHR 0x0A] texts)) = Inr w'"
    and s: "self' = self1\<lparr>contours := cs, cropped_contours := crops, contour_texts := texts\<rparr>"
    by (auto simp: Image_analyse_def g cc gt Let_def split: sum.splits)
  show "self' = (fst (get_text_boxes L self w))
           \<lparr>contours := snd (get_text_boxes L self w),
            cropped_contours := map (\<lambda>contour. case boundingRect L contour of (x, y, wd, h) \<Rightarrow>
                  map (py_slice x (x + wd)) (py_slice y (y + h) (thresh (fst (get_text_boxes L self w)))))
                (snd (get_text_boxes L self w)),
            contour_texts := map (\<lambda>img. image_to_string L (dilate L img (2, 2) 1) ''-l eng --oem 1 --psm 3'')
               (map (\<lambda>contour. case boundingRect L contour of (x, y, wd, h) \<Rightarrow>
                  map (py_slice x (x + wd)) (py_slice y (y + h) (thresh (fst (get_text_boxes L self w)))))
                (snd (get_text_boxes L self w)))\<rparr>"
    by (simp add: s g crops_def texts_def)
  show "snd (get_text_boxes L self w) \<noteq> []" using ne by (simp add: g)
  show "w' = w\<lparr>files := (files w)(path self @ [''output_texts'', ''text.txt'']
                  \<mapsto> Text (str_join [CHR 0x0A] (contour_texts self')))\<rparr>"
    using write_file_Inr(1) [OF wf] by (simp add: s)
  show "path self @ [''output_texts''] \<in> dirs w"
    using write_file_Inr(2) [OF wf] by (simp add: butlast_append)
  show "path self @ [''output_texts'', ''text.txt''] \<notin> dirs w"
    using write_file_Inr(3) [OF wf] .
qed

lemma Image_init_Inr:
  assumes "Image_init L u url0 w = (w', Inr self)"
  obtains w1 self1 where "Image_load L u url0 w = (w1, Inr self1)"
    and "Image_analyse L self1 w1 = (w', Inr self)"
  using assms by (auto simp: Image_init_def split: prod.splits sum.splits)

lemma Image_init_data_flow:
  assumes "Image_init L u url0 w = (w', Inr self)"
  shows "thresh self = map (map (\<lambda>p. if 250 < p then 255 else 0)) (cvtColor L (heap w' ! image_ref self))
       \<and> cropped_contours self =
           map (\<lambda>contour. case boundingRect L contour of (x, y, wd, h) \<Rightarrow>
                  map (py_slice x (x + wd)) (py_slice y (y + h) (thresh self))) (contours self)
       \<and> contour_texts self =
           map (\<lambda>img. image_to_string L (dilate L img (2, 2) 1) ''-l eng --oem 1 --psm 3'')
             (cropped_contours self)"
proof -
  from assms obtain w1 self1 where l: "Image_load L u url0 w = (w1, Inr self1)"
    and a: "Image_analyse L self1 w1 = (w', Inr self)"
    by (rule Image_init_Inr)
  note s = Image_analyse_Inr(1) [OF a] and w' = Image_analyse_Inr(3) [OF a]
  have h: "heap w' = heap w1" by (subst w') simp
  have r: "image_ref self = image_ref self1" by (subst s) (simp add: get_text_boxes_fst)
  have t: "thresh self = thresh (fst (get_text_boxes L self1 w1))" by (subst s) simp
  have c: "contours self = snd (get_text_boxes L self1 w1)" by (subst s) simp
  have "thresh self = map (map (\<lambda>p. if 250 < p then 255 else 0)) (cvtColor L (heap w' ! image_ref self))"
    by (simp add: t h r get_text_boxes_fst)
  moreover have "cropped_contours self =
           map (\<lambda>contour. case boundingRect L contour of (x, y, wd, h) \<Rightarrow>
                  map (py_slice x (x + wd)) (py_slice y (y + h) (thresh self))) (contours self)"
    unfolding t c by (subst s) simp
  moreover have "contour_texts self =
           map (\<lambda>img. image_to_string L (dilate L img (2, 2) 1) ''-l eng --oem 1 --psm 3'')
             (cropped_contours self)"
    by (subst (1 2) s) simp
  ultimately show ?thesis by simp
qed


lemma crops_are_cut_from_thresh_aux:
  assumes "Image_init L u url0 w = (w', Inr self)"
  shows "thresh self = map (map (\<lambda>p. if 250 < p then 255 else 0)) (cvtColor L (heap w' ! image_ref self))"
    and "cropped_contours self =
           map (\<lambda>contour. case boundingRect L contour of (x, y, wd, h) \<Rightarrow>
                  map (py_slice x (x + wd)) (py_slice y (y + h) (thresh self))) (contours self)"
    and "contour_texts self =
           map (\<lambda>img. image_to_string L (dilate L img (2, 2) 1) ''-l eng --oem 1 --psm 3'')
             (cropped_contours self)"
  using Image_init_data_flow [OF assms] by blast+

section \<open>Facts about the annotation and the text file\<close>

lemma fold_rectangle:
  fixes L :: "'c libs" and c :: nat
  defines "step \<equiv> (\<lambda>contour (v::world). case boundingRect L contour of (x, y, wd, h) \<Rightarrow>
                  v\<lparr>heap := (heap v)[c := rectangle L (heap v ! c) (x, y) (x + wd, y + h) (0, 255, 0) 2]\<rparr>)"
  shows "files (fold step cs v) = files v"
    and "dirs (fold step cs v) = dirs v"
    and "length (heap (fold step cs v)) = length (heap v)"
    and "a \<noteq> c \<Longrightarrow> heap (fold step cs v) ! a = heap v ! a"
    and "c < length (heap v) \<Longrightarrow> heap (fold step cs v) ! c =
           fold (\<lambda>contour im. case boundingRect L contour of (x, y, wd, h) \<Rightarrow>
                   rectangle L im (x, y) (x + wd, y + h) (0, 255, 0) 2) cs (heap v ! c)"
proof (induction cs arbitrary: v)
  case Nil
  { case 1 show ?case by simp }
  { case 2 show ?case by simp }
  { case 3 show ?case by simp }
  { case 4 show ?case by simp }
  { case 5 show ?case by simp }
next
  case (Cons k cs)
  { case 1 show ?case by (simp add: Cons.IH(1)) (simp add: step_def split: prod.splits) }
  { case 2 show ?case by (simp add: Cons.IH(2)) (simp add: step_def split: prod.splits) }
  { case 3 show ?case by (simp add: Cons.IH(3)) (simp add: step_def split: prod.splits) }
  { case 4 then show ?case by (simp add: Cons.IH(4)) (simp add: step_def split: prod.splits) }
  { case 5
    then have "c < length (heap (step k v))" by (simp add: step_def split: prod.splits)
    from Cons.IH(5) [OF this] 5 show ?case by (simp add: step_def split: prod.splits) }
qed

lemma draw_contours_effect:
  fixes L :: "'c libs"
  defines "out \<equiv> (\<lambda>self. path self @ [''output_images'', ''contours.png''])"
    and "annotated \<equiv> (\<lambda>self w. fold (\<lambda>contour im. case boundingRect L contour of (x, y, wd, h) \<Rightarrow>
                   rectangle L im (x, y) (x + wd, y + h) (0, 255, 0) 2) (contours self) (heap w ! image_ref self))"
  shows "dirs (draw_contours L self True w) = dirs w"
    and "heap (draw_contours L self True w) = heap w @ [annotated self w]"
    and "files (draw_contours L self True w) =
           (if path self @ [''output_images''] \<in> dirs w \<and> out self \<notin> dirs w
            then (files w)(out self \<mapsto> Encoded (annotated self w)) else files w)"
proof -
  define c where "c = length (heap w)"
  define step where "step = (\<lambda>contour (v::world). case boundingRect L contour of (x, y, wd, h) \<Rightarrow>
                  v\<lparr>heap := (heap v)[c := rectangle L (heap v ! c) (x, y) (x + wd, y + h) (0, 255, 0) 2]\<rparr>)"
  define w1 where "w1 = w\<lparr>heap := heap w @ [heap w ! image_ref self]\<rparr>"
  define w2 where "w2 = fold step (contours self) w1"
  have d: "draw_contours L self True w = cv2_imwrite w2 (out self) (heap w2 ! c)"
    unfolding draw_contours_def Let_def w2_def w1_def step_def c_def out_def by simp
  have c1: "c < length (heap w1)" by (simp add: w1_def c_def)
  have f2: "files w2 = files w" and d2: "dirs w2 = dirs w"
    unfolding w2_def step_def by (simp_all add: fold_rectangle w1_def)
  have l2: "length (heap w2) = Suc (length (heap w))"
    unfolding w2_def step_def by (simp add: fold_rectangle w1_def)
  have o2: "heap w2 ! a = heap w ! a" if "a < length (heap w)" for a
  proof -
    have "a \<noteq> c" using that by (simp add: c_def)
    then have "heap w2 ! a = heap w1 ! a" unfolding w2_def step_def by (rule fold_rectangle(4))
    then show ?thesis using that by (simp add: w1_def nth_append)
  qed
  have a2: "heap w2 ! c = annotated self w"
    unfolding w2_def step_def annotated_def using fold_rectangle(5) [OF c1, of L "contours self"]
    by (simp add: w1_def c_def)
  have h2: "heap w2 = heap w @ [annotated self w]"
    by (rule nth_equalityI) (auto simp: l2 o2 a2 [unfolded c_def] nth_append less_Suc_eq)
  show "dirs (draw_contours L self True w) = dirs w"
    by (simp add: d cv2_imwrite_def d2)
  show "heap (draw_contours L self True w) = heap w @ [annotated self w]"
    by (simp add: d cv2_imwrite_def h2)
  show "files (draw_contours L self True w) =
           (if path self @ [''output_images''] \<in> dirs w \<and> out self \<notin> dirs w
            then (files w)(out self \<mapsto> Encoded (annotated self w)) else files w)"
    by (simp add: d cv2_imwrite_def d2 f2 a2 out_def butlast_append)
qed

lemma split_nl_not_Nil: "split_nl s \<noteq> []"
  by (induction s) (auto split: list.splits)

lemma split_nl_line:
  "CHR 0x0A \<notin> set t \<Longrightarrow> split_nl (t @ CHR 0x0A # s) = t # split_nl s"
  by (induction t) (auto split: list.splits)

lemma split_nl_last: "CHR 0x0A \<notin> set t \<Longrightarrow> split_nl t = [t]"
  by (induction t) (auto split: list.splits)

lemma split_nl_str_join:
  "ts \<noteq> [] \<Longrightarrow> (\<forall>t \<in> set ts. CHR 0x0A \<notin> set t) \<Longrightarrow> split_nl (str_join [CHR 0x0A] ts) = ts"
proof (induction "[CHR 0x0A]" ts rule: str_join.induct)
  case 1
  then show ?case by simp
next
  case (2 t)
  then show ?case by (simp add: split_nl_last)
next
  case (3 t u ts)
  then show ?case by (simp add: split_nl_line)
qed



text \<open>The definitions that a run on concrete inputs unfolds.\<close>

lemmas run_defs = Image_init_def Image_load_def Image_analyse_def save_image_from_url_def
  get_text_boxes_def crop_contours_def get_contour_texts_def draw_contours_def ocr_meme_def
  Image_new_def stub_libs_def empty_world_def os_path_exists_def os_makedirs_def write_file_def
  cv2_imwrite_def cv2_imread_def threshold_binary_inv_def py_slice_def Let_def

section \<open>Detection\<close>

text \<open>
  Claim C1, as stated: every Region that \<open>get_text_boxes\<close> returns is at least as wide as
  it is high and at least 0.15 times as wide as the image.  The code does not keep to it.
  When the detector finds two contours and both are taller than wide, the removal of
  the first moves the second to index 0 while the iterator goes on to index 1, so the
  loop ends and the second contour is returned: here an image 400 wide with two
  contours of width 30 and height 124.
\<close>

theorem get_text_boxes_keeps_tall_contour:
  "snd (get_text_boxes (stub_libs [(20, 10, 30, 124), (200, 10, 30, 124)] [])
          ((Image_new ''run'' ''http://x'')\<lparr>width := 400\<rparr>)
          \<lparr>files = Map.empty, dirs = {}, heap = [[[(255, 255, 255)]]]\<rparr>)
     = [(200, 10, 30, 124)]"
  by (simp add: get_text_boxes_def stub_libs_def Image_new_def Let_def)

section \<open>The feed client\<close>

text \<open>
  Claim C2, as stated: \<open>ocr_meme\<close> called without a URL hands the Image a URL picked at
  call time by \<open>get_random_url\<close>.  The code does not get that far: the default value
  \<open>self.get_random_url\<close> is evaluated when the \<open>def\<close> statement runs inside the class
  body, where no scope binds \<open>self\<close>, so the class statement raises NameError and
  neither the class nor the entry point after it exists.
\<close>

theorem Reddit_class_statement_raises:
  "exec_class_body module_globals [] Reddit_class_body = Inl NameError"
  by (simp add: module_globals_def Reddit_class_body_def)

text \<open>
  Claim C3: the API handle of every Reddit instance is constructed with \<open>client_id\<close> set to
  the username that was supplied, and the \<open>client_id\<close> credential has no influence on the
  handle, neither through the constructor nor through the stored attribute.
\<close>

theorem praw_client_id_is_username:
  "praw_client_id (reddit (Reddit_init u p ci cs ua)) = u
   \<and> reddit (Reddit_init u p ci' cs ua) = reddit (Reddit_init u p ci cs ua)
   \<and> initialize (self\<lparr>client_id := ci'\<rparr>) = initialize self"
  by (simp add: Reddit_init_def initialize_def Let_def)

text \<open>
  Claim C7: on an empty stored URL sequence \<open>get_random_url\<close> has the one outcome
  EmptyInputError, and on a sequence of exactly one URL its one outcome is that URL.
\<close>

theorem get_random_url_empty_and_singleton:
  "get_random_url (self\<lparr>image_urls := Some []\<rparr>) = {Inl EmptyInputError}
   \<and> get_random_url (self\<lparr>image_urls := Some [u]\<rparr>) = {Inr u}"
  by (simp add: get_random_url_def)

section \<open>Failure without regions\<close>



section \<open>The mask, the crops and the texts\<close>

text \<open>
  Claim C5, as stated: the mask has value 255 exactly at the pixels of luminance at least
  250.  It fails at luminance 250 itself: \<open>THRESH_BINARY_INV\<close> maps a pixel to 0 only when
  it is greater than the threshold, so 250 becomes 255 and the inversion makes it 0.
\<close>

theorem thresh_250_is_background:
  "cvtColor (stub_libs [] []) [[(250, 250, 250)]] = [[250]] \<and>
   thresh (fst (get_text_boxes (stub_libs [] []) (Image_new ''run'' ''http://x'')
                  \<lparr>files = Map.empty, dirs = {}, heap = [[[(250, 250, 250)]]]\<rparr>)) = [[0]]"
  by (simp add: get_text_boxes_def stub_libs_def Image_new_def threshold_binary_inv_def Let_def)

text \<open>
  Claim C5, amended: for every grayscale input the mask that \<open>get_text_boxes\<close> stores has
  value 255 exactly at the pixels of luminance greater than 250 (251 to 255) and value 0
  at every other pixel.
\<close>

theorem thresh_foreground_above_250:
  "thresh (fst (get_text_boxes L self w)) =
     map (map (\<lambda>p. if 250 < p then 255 else 0)) (cvtColor L (heap w ! image_ref self))"
  by (simp add: get_text_boxes_def threshold_binary_inv_def Let_def)

text \<open>
  Claim C6, as stated: the i-th newline-separated block of the text file equals the i-th
  OCR string.  It fails as soon as an OCR string contains a newline: with one Region
  whose text is \<open>a\<close>, newline, \<open>b\<close> the run succeeds and writes that text, whose block
  0 is \<open>a\<close>.
\<close>

theorem text_block_differs_from_ocr_string:
  "contours (projr (snd (Image_init (stub_libs [(1, 0, 2, 1)] [CHR ''a'', CHR 0x0A, CHR ''b''])
                            ''run'' ''http://x'' empty_world))) = [(1, 0, 2, 1)]
   \<and> contour_texts (projr (snd (Image_init (stub_libs [(1, 0, 2, 1)] [CHR ''a'', CHR 0x0A, CHR ''b''])
                            ''run'' ''http://x'' empty_world))) = [[CHR ''a'', CHR 0x0A, CHR ''b'']]
   \<and> files (fst (Image_init (stub_libs [(1, 0, 2, 1)] [CHR ''a'', CHR 0x0A, CHR ''b''])
                            ''run'' ''http://x'' empty_world))
         [''images'', ''run'', ''output_texts'', ''text.txt'']
       = Some (Text [CHR ''a'', CHR 0x0A, CHR ''b''])
   \<and> split_nl [CHR ''a'', CHR 0x0A, CHR ''b''] ! 0 = ''a''
   \<and> split_nl [CHR ''a'', CHR 0x0A, CHR ''b''] ! 0 \<noteq> [CHR ''a'', CHR 0x0A, CHR ''b'']"
  by (simp add: run_defs)

text \<open>
  Claim C6, amended: after a successful run there are as many OCR strings and as many
  crops as Regions, the i-th crop is cut for the i-th Region and the i-th OCR string is
  read from the i-th crop, and the text file holds the OCR strings in that order joined
  by single newlines; its newline-separated blocks are the OCR strings whenever no OCR
  string contains a newline.
\<close>

theorem texts_follow_regions:
  assumes "Image_init L u url0 w = (w', Inr self)"
  shows "length (contour_texts self) = length (contours self)
       \<and> length (cropped_contours self) = length (contours self)
       \<and> (\<forall>i < length (contours self).
             cropped_contours self ! i =
               (case boundingRect L (contours self ! i) of (x, y, wd, h) \<Rightarrow>
                  map (py_slice x (x + wd)) (py_slice y (y + h) (thresh self)))
           \<and> contour_texts self ! i =
               image_to_string L (dilate L (cropped_contours self ! i) (2, 2) 1) ''-l eng --oem 1 --psm 3'')
       \<and> files w' [''images'', u, ''output_texts'', ''text.txt'']
            = Some (Text (str_join [CHR 0x0A] (contour_texts self)))
       \<and> ((\<forall>t \<in> set (contour_texts self). CHR 0x0A \<notin> set t) \<longrightarrow>
            split_nl (str_join [CHR 0x0A] (contour_texts self)) = contour_texts self)"
proof -
  from assms obtain w1 self1 where l: "Image_load L u url0 w = (w1, Inr self1)"
    and a: "Image_analyse L self1 w1 = (w', Inr self)"
    by (rule Image_init_Inr)
  note c = crops_are_cut_from_thresh_aux [OF assms]
  from l have p: "path self1 = [''images'', u]"
    by (rule Image_load_Inr) (simp add: Image_new_def)
  have ne: "contours self \<noteq> []"
    using Image_analyse_Inr(2) [OF a] by (subst Image_analyse_Inr(1) [OF a]) simp
  have l1: "length (cropped_contours self) = length (contours self)"
    by (subst c(2)) simp
  have l2: "length (contour_texts self) = length (contours self)"
    by (subst c(3)) (simp add: l1)
  have f: "files w' [''images'', u, ''output_texts'', ''text.txt'']
            = Some (Text (str_join [CHR 0x0A] (contour_texts self)))"
    by (subst Image_analyse_Inr(3) [OF a]) (simp add: p)
  have i1: "cropped_contours self ! i =
               (case boundingRect L (contours self ! i) of (x, y, wd, h) \<Rightarrow>
                  map (py_slice x (x + wd)) (py_slice y (y + h) (thresh self)))"
    if "i < length (contours self)" for i
    by (subst c(2)) (simp add: that)
  have i2: "contour_texts self ! i =
               image_to_string L (dilate L (cropped_contours self ! i) (2, 2) 1) ''-l eng --oem 1 --psm 3''"
    if "i < length (contours self)" for i
    by (subst c(3)) (simp add: that l1)
  have "contour_texts self \<noteq> []" using ne l2 by auto
  then have sp: "(\<forall>t \<in> set (contour_texts self). CHR 0x0A \<notin> set t) \<longrightarrow>
            split_nl (str_join [CHR 0x0A] (contour_texts self)) = contour_texts self"
    using split_nl_str_join by blast
  show ?thesis using l1 l2 f i1 i2 sp by blast
qed

text \<open>Claim C6, amended, on a run with two Regions whose text is \<open>ab\<close>.\<close>

theorem texts_follow_regions_witness:
  "length (contour_texts (projr (snd (Image_init (stub_libs [(1, 0, 2, 1), (0, 0, 4, 1)] ''ab'')
                            ''run'' ''http://x'' empty_world)))) = 2
   \<and> split_nl (str_join [CHR 0x0A] (contour_texts (projr (snd (Image_init
            (stub_libs [(1, 0, 2, 1), (0, 0, 4, 1)] ''ab'') ''run'' ''http://x'' empty_world)))))
       = [''ab'', ''ab'']"
proof -
  let ?R = "Image_init (stub_libs [(1, 0, 2, 1), (0, 0, 4, 1)] ''ab'') ''run'' ''http://x'' empty_world"
  have e: "?R = (fst ?R, Inr (projr (snd ?R)))" by (simp add: run_defs)
  have c: "contours (projr (snd ?R)) = [(1, 0, 2, 1), (0, 0, 4, 1)]" by (simp add: run_defs)
  have t: "contour_texts (projr (snd ?R)) = [''ab'', ''ab'']" by (simp add: run_defs)
  from texts_follow_regions [OF e] show ?thesis by (simp add: c t)
qed

text \<open>
  Claim C8: after a successful construction of an Image, \<open>thresh\<close> is the thresholded
  mask of the decoded image, with no erosion or dilation applied; the crop stored for each
  Region is the sub-rectangle of \<open>thresh\<close> at the Region's bounding box; and the OCR engine
  is given that crop, after the one dilation with a 2 by 2 kernel.
\<close>

theorem crops_are_cut_from_thresh:
  assumes "Image_init L u url0 w = (w', Inr self)"
  shows "thresh self = map (map (\<lambda>p. if 250 < p then 255 else 0)) (cvtColor L (heap w' ! image_ref self))
       \<and> cropped_contours self =
           map (\<lambda>contour. case boundingRect L contour of (x, y, wd, h) \<Rightarrow>
                  map (py_slice x (x + wd)) (py_slice y (y + h) (thresh self))) (contours self)
       \<and> contour_texts self =
           map (\<lambda>img. image_to_string L (dilate L img (2, 2) 1) ''-l eng --oem 1 --psm 3'')
             (cropped_contours self)"
  by (rule Image_init_data_flow [OF assms])

text \<open>Claim C8 on a run with one Region, columns 1 and 2 of a one-row image.\<close>

theorem crops_are_cut_from_thresh_witness:
  "thresh (projr (snd (Image_init (stub_libs [(1, 0, 2, 1)] ''ab'') ''run'' ''http://x'' empty_world)))
     = [[255, 0, 255, 0]]
   \<and> cropped_contours (projr (snd (Image_init (stub_libs [(1, 0, 2, 1)] ''ab'') ''run'' ''http://x'' empty_world)))
     = [[[0, 255]]]
   \<and> contour_texts (projr (snd (Image_init (stub_libs [(1, 0, 2, 1)] ''ab'') ''run'' ''http://x'' empty_world)))
     = [''ab'']"
proof -
  let ?R = "Image_init (stub_libs [(1, 0, 2, 1)] ''ab'') ''run'' ''http://x'' empty_world"
  have "?R = (fst ?R, Inr (projr (snd ?R)))" by (simp add: run_defs)
  from crops_are_cut_from_thresh [OF this] show ?thesis by (simp add: run_defs)
qed

section \<open>Output files\<close>



text \<open>
  Claim C10: \<open>draw_contours\<close> writes to \<open>output_images/contours.png\<close> the image obtained
  from the decoded image by drawing, for each Region with bounding box \<open>(x, y, w, h)\<close>, a
  rectangle from \<open>(x, y)\<close> to \<open>(x + w, y + h)\<close> in colour (0, 255, 0) and thickness 2;
  the decoded image itself, and every other array that existed, is unchanged.  The output
  directory exists, as it does after the download.
\<close>

theorem draw_contours_annotates_a_copy:
  assumes "image_ref self < length (heap w)"
    and "path self @ [''output_images''] \<in> dirs w"
    and "path self @ [''output_images'', ''contours.png''] \<notin> dirs w"
  shows "files (draw_contours L self True w) (path self @ [''output_images'', ''contours.png''])
           = Some (Encoded (fold (\<lambda>contour im. case boundingRect L contour of (x, y, wd, h) \<Rightarrow>
                              rectangle L im (x, y) (x + wd, y + h) (0, 255, 0) 2)
                        (contours self) (heap w ! image_ref self)))
         \<and> heap (draw_contours L self True w) ! image_ref self = heap w ! image_ref self
         \<and> take (length (heap w)) (heap (draw_contours L self True w)) = heap w"
  using assms by (simp add: draw_contours_effect nth_append)

text \<open>Claim C10 on a two-pixel image with one Region.\<close>

theorem draw_contours_annotates_a_copy_witness:
  "files (draw_contours (stub_libs [] []) ((Image_new ''run'' ''http://x'')\<lparr>contours := [(0, 0, 2, 1)]\<rparr>) True
            \<lparr>files = Map.empty, dirs = {[''images'', ''run'', ''output_images'']},
             heap = [[[(1, 2, 3), (4, 5, 6)]]]\<rparr>)
       [''images'', ''run'', ''output_images'', ''contours.png'']
     = Some (Encoded [[(0, 255, 0), (0, 255, 0)]])
   \<and> heap (draw_contours (stub_libs [] []) ((Image_new ''run'' ''http://x'')\<lparr>contours := [(0, 0, 2, 1)]\<rparr>) True
            \<lparr>files = Map.empty, dirs = {[''images'', ''run'', ''output_images'']},
             heap = [[[(1, 2, 3), (4, 5, 6)]]]\<rparr>) ! 0
     = [[(1, 2, 3), (4, 5, 6)]]"
  using draw_contours_annotates_a_copy [of "(Image_new ''run'' ''http://x'')\<lparr>contours := [(0, 0, 2, 1)]\<rparr>"
      "\<lparr>files = Map.empty, dirs = {[''images'', ''run'', ''output_images'']},
             heap = [[[(1, 2, 3), (4, 5, 6)]]]\<rparr>" "stub_libs [] []"]
  by (simp add: Image_new_def stub_libs_def)

end
